theory Spec2Isabelle
  imports Main "HOL-Library.Word" "HOL-Library.Product_Lexorder"
begin

section \<open>The master process (mooncake-store/src/master.cpp)\<close>

text \<open>
  C++ \<open>int\<close> and gflags' \<open>int32\<close> are 32-bit two's complement values, read with
  \<open>sint\<close>; \<open>unsigned int\<close> is a 32-bit value read with \<open>uint\<close>.
\<close>

type_synonym int32 = "32 word"
type_synonym uint32 = "32 word"

subsection \<open>Flags\<close>

text \<open>
  The three \<open>DEFINE_int32\<close>/\<open>DEFINE_bool\<close> globals of master.cpp, lines 12 to 14.
\<close>

record flag_values =
  FLAGS_port :: int32
  FLAGS_max_threads :: int32
  FLAGS_enable_gc :: bool

definition flag_defaults :: flag_values where
  "flag_defaults = \<lparr>FLAGS_port = 50051, FLAGS_max_threads = 4, FLAGS_enable_gc = False\<rparr>"

text \<open>
  gflags is an external library. What \<open>ParseCommandLineFlags\<close> does to the three flags
  is modelled by the list of settings found on the command line, applied from left to
  right to the defined defaults; a command line without flags is the empty list.
\<close>

datatype flag_setting =
    SetPort int32
  | SetMaxThreads int32
  | SetEnableGc bool

fun apply_setting :: "flag_values \<Rightarrow> flag_setting \<Rightarrow> flag_values" where
  "apply_setting f (SetPort p) = f\<lparr>FLAGS_port := p\<rparr>"
| "apply_setting f (SetMaxThreads n) = f\<lparr>FLAGS_max_threads := n\<rparr>"
| "apply_setting f (SetEnableGc b) = f\<lparr>FLAGS_enable_gc := b\<rparr>"

definition ParseCommandLineFlags :: "flag_setting list \<Rightarrow> flag_values" where
  "ParseCommandLineFlags argv = foldl apply_setting flag_defaults argv"

subsection \<open>The RPC server object\<close>

text \<open>
  \<open>coro_rpc_server\<close> is an external class. The model records what master.cpp hands to it:
  the two constructor arguments and the member functions registered as handlers, by name
  and in registration order.
\<close>

record coro_rpc_server =
  thread_num :: int32
  port :: int32
  handlers :: "string list"

definition new_server :: "int32 \<Rightarrow> int32 \<Rightarrow> coro_rpc_server" where
  "new_server n p = \<lparr>thread_num = n, port = p, handlers = []\<rparr>"

definition register_handler :: "string \<Rightarrow> coro_rpc_server \<Rightarrow> coro_rpc_server" where
  "register_handler name srv = srv\<lparr>handlers := handlers srv @ [name]\<rparr>"

text \<open>\<open>std::min(a, b)\<close> on \<open>int\<close>: \<open>b\<close> if \<open>b < a\<close> (signed), otherwise \<open>a\<close>.\<close>

definition std_min :: "int32 \<Rightarrow> int32 \<Rightarrow> int32" where
  "std_min a b = (if b <s a then b else a)"

text \<open>
  \<open>static_cast<int>\<close> of an \<open>unsigned int\<close> keeps the 32 bits; the result is read
  as two's complement from then on.
\<close>

definition static_cast_int :: "uint32 \<Rightarrow> int32" where
  "static_cast_int u = u"


section \<open>Error kinds\<close>

text \<open>The error kinds of the spec, section 7.\<close>

datatype error =
    NotFound
  | Conflict
  | InsufficientCapacity
  | DuplicateSegment
  | SegmentNotFound
  | StoreError
  | Unavailable
  | HandshakeFailed
  | Timeout

section \<open>The master service\<close>

text \<open>
  Modelled from the spec: \<open>mooncake::WrappedMasterService\<close>. master.cpp includes
  rpc_service.h, constructs the service and registers its seven member functions; what
  the service does is described in the spec (sections 3, 4.1 to 4.3 and 5), and every
  definition of this section follows those sentences.
\<close>

subsection \<open>Data model (spec, section 3)\<close>

text \<open>
  Modelled from the spec: Segment, Replica, Object and PutTransaction with the attributes
  section 3 lists for each. Sizes, offsets and times are natural numbers; segment
  identifiers are numbers, so that "lowest segment identifier" has a meaning.
\<close>

type_synonym object_key = string
type_synonym segment_id = nat
type_synonym node_address = string

datatype segment_status = Active | Draining | Gone

record segment =
  seg_id :: segment_id
  seg_node :: node_address
  seg_capacity :: nat
  seg_allocated :: nat
  seg_status :: segment_status
  seg_mounted :: nat

datatype replica_status = Pending | Complete | Invalid

record replica =
  rep_key :: object_key
  rep_segment :: segment_id
  rep_offset :: nat
  rep_length :: nat
  rep_status :: replica_status

datatype object_state = Uncommitted | Putting | ObjComplete | Removed

record object =
  obj_key :: object_key
  obj_size :: nat
  obj_replicas :: "replica list"
  obj_state :: object_state
  obj_target :: nat

record put_txn =
  txn_key :: object_key
  txn_replicas :: "replica list"
  txn_start :: nat
  txn_client :: nat

text \<open>
  Modelled from the spec: what PutStart hands back for each replica, "segment + offset +
  length".
\<close>

record placement =
  pl_segment :: segment_id
  pl_offset :: nat
  pl_length :: nat

record master_state =
  segments :: "segment list"
  objects :: "object list"
  transactions :: "put_txn list"

definition empty_state :: master_state where
  "empty_state = \<lparr>segments = [], objects = [], transactions = []\<rparr>"

definition find_segment :: "segment_id \<Rightarrow> master_state \<Rightarrow> segment option" where
  "find_segment sid s = find (\<lambda>g. seg_id g = sid) (segments s)"

definition find_object :: "object_key \<Rightarrow> master_state \<Rightarrow> object option" where
  "find_object k s = find (\<lambda>ob. obj_key ob = k) (objects s)"

definition find_txn :: "object_key \<Rightarrow> master_state \<Rightarrow> put_txn option" where
  "find_txn k s = find (\<lambda>t. txn_key t = k) (transactions s)"

definition is_complete_object :: "object_key \<Rightarrow> master_state \<Rightarrow> bool" where
  "is_complete_object k s =
     (case find_object k s of None \<Rightarrow> False | Some ob \<Rightarrow> obj_state ob = ObjComplete)"

text \<open>Modelled from the spec: the live (Pending or Complete) replicas held by a segment.\<close>

definition live_replicas_on :: "segment_id \<Rightarrow> master_state \<Rightarrow> replica list" where
  "live_replicas_on sid s =
     filter (\<lambda>r. rep_segment r = sid \<and> (rep_status r = Pending \<or> rep_status r = Complete))
       (concat (map obj_replicas (objects s)))"

text \<open>
  Modelled from the spec: a replica may be served while its segment is registered and
  not Gone ("Active or Draining, never Gone").
\<close>

definition segment_live :: "segment_id \<Rightarrow> master_state \<Rightarrow> bool" where
  "segment_live sid s =
     (case find_segment sid s of None \<Rightarrow> False | Some g \<Rightarrow> seg_status g \<noteq> Gone)"

subsection \<open>SegmentRegistry (spec, section 4.1)\<close>

text \<open>
  Modelled from the spec: MountSegment. "Registers a new segment with a generated or
  supplied identifier, capacity, and owning-node address. Fails with DuplicateSegment if
  the identifier already exists and is not Gone. Side effect: segment becomes Active."
  A Gone entry of the same identifier is replaced.
\<close>

definition MountSegment ::
  "segment_id \<Rightarrow> node_address \<Rightarrow> nat \<Rightarrow> nat \<Rightarrow> master_state \<Rightarrow> (error + unit) \<times> master_state"
where
  "MountSegment sid node cap now s =
     (let fresh = \<lparr>seg_id = sid, seg_node = node, seg_capacity = cap, seg_allocated = 0,
                   seg_status = Active, seg_mounted = now\<rparr>
      in case find_segment sid s of
           None \<Rightarrow> (Inr (), s\<lparr>segments := segments s @ [fresh]\<rparr>)
         | Some g \<Rightarrow>
             if seg_status g \<noteq> Gone then (Inl DuplicateSegment, s)
             else (Inr (), s\<lparr>segments := filter (\<lambda>g. seg_id g \<noteq> sid) (segments s) @ [fresh]\<rparr>))"

definition set_segment_status :: "segment_id \<Rightarrow> segment_status \<Rightarrow> segment list \<Rightarrow> segment list" where
  "set_segment_status sid st gs =
     map (\<lambda>g. if seg_id g = sid then g\<lparr>seg_status := st\<rparr> else g) gs"

text \<open>
  Modelled from the spec: UnmountSegment. "If the segment holds no Complete/Pending
  replicas, transitions immediately to Gone ... If it holds live replicas, transitions to
  Draining ... Fails with SegmentNotFound if unknown."
\<close>

definition UnmountSegment :: "segment_id \<Rightarrow> master_state \<Rightarrow> (error + unit) \<times> master_state" where
  "UnmountSegment sid s =
     (case find_segment sid s of
        None \<Rightarrow> (Inl SegmentNotFound, s)
      | Some g \<Rightarrow>
          if live_replicas_on sid s = []
          then (Inr (), s\<lparr>segments := set_segment_status sid Gone (segments s)\<rparr>)
          else (Inr (), s\<lparr>segments := set_segment_status sid Draining (segments s)\<rparr>))"

text \<open>
  Modelled from the spec: AllocateSpace. "Selects up to replicaCount distinct Active
  segments with sufficient free capacity, preferring segments on distinct nodes and
  least-loaded first (tie-break by lowest segment identifier for determinism). Fails
  with InsufficientCapacity if fewer than 1 suitable segment is found."
  The candidates are ordered by allocated bytes, then identifier; the first segment of
  every node comes before any second segment of a node. A placement starts at the
  segment's allocated-bytes mark, which then moves up by the size.
\<close>

definition suitable :: "nat \<Rightarrow> node_address list \<Rightarrow> segment \<Rightarrow> bool" where
  "suitable nbytes excludeNodes g =
     (seg_status g = Active \<and> nbytes \<le> seg_capacity g - seg_allocated g
      \<and> seg_node g \<notin> set excludeNodes)"

fun first_per_node :: "segment list \<Rightarrow> node_address list \<Rightarrow> segment list" where
  "first_per_node [] seen = []"
| "first_per_node (g # gs) seen =
     (if seg_node g \<in> set seen then first_per_node gs seen
      else g # first_per_node gs (seg_node g # seen))"

definition preference_order :: "segment list \<Rightarrow> segment list" where
  "preference_order gs =
     (let sorted_gs = sort_key (\<lambda>g. (seg_allocated g, seg_id g)) gs;
          firsts = first_per_node sorted_gs []
      in firsts @ filter (\<lambda>g. g \<notin> set firsts) sorted_gs)"

definition place :: "nat \<Rightarrow> segment \<Rightarrow> placement" where
  "place nbytes g = \<lparr>pl_segment = seg_id g, pl_offset = seg_allocated g, pl_length = nbytes\<rparr>"

definition reserve :: "nat \<Rightarrow> segment_id list \<Rightarrow> segment list \<Rightarrow> segment list" where
  "reserve nbytes chosen gs =
     map (\<lambda>g. if seg_id g \<in> set chosen then g\<lparr>seg_allocated := seg_allocated g + nbytes\<rparr> else g) gs"

definition AllocateSpace ::
  "nat \<Rightarrow> nat \<Rightarrow> node_address list \<Rightarrow> segment list \<Rightarrow> error + (placement list \<times> segment list)"
where
  "AllocateSpace nbytes replicaCount excludeNodes gs =
     (let candidates = filter (suitable nbytes excludeNodes) gs
      in if candidates = [] then Inl InsufficientCapacity
         else let chosen = take replicaCount (preference_order candidates)
              in Inr (map (place nbytes) chosen, reserve nbytes (map seg_id chosen) gs))"

text \<open>
  Modelled from the spec: release, the counterpart of allocation ("allocation and release
  are atomic updates to a segment's free-capacity counter").
\<close>

definition release_one :: "replica \<Rightarrow> segment list \<Rightarrow> segment list" where
  "release_one r gs =
     map (\<lambda>g. if seg_id g = rep_segment r
              then g\<lparr>seg_allocated := seg_allocated g - rep_length r\<rparr> else g) gs"

definition release :: "replica list \<Rightarrow> segment list \<Rightarrow> segment list" where
  "release rs gs = fold release_one rs gs"

subsection \<open>ObjectDirectory (spec, section 4.2)\<close>

text \<open>Modelled from the spec: a replica is Pending from PutStart until PutEnd.\<close>

definition pending_replica :: "object_key \<Rightarrow> placement \<Rightarrow> replica" where
  "pending_replica k p =
     \<lparr>rep_key = k, rep_segment = pl_segment p, rep_offset = pl_offset p,
      rep_length = pl_length p, rep_status = Pending\<rparr>"

text \<open>
  Modelled from the spec: PutStart. "Fails with Conflict if a transaction already exists
  for key, or if an object with that key is already Complete ... Otherwise calls
  SegmentRegistry.AllocateSpace; on success creates the object in Putting state plus a
  PutTransaction, returns the allocated replica placements ... On allocation failure, no
  object is created and the call fails with InsufficientCapacity."
  The caller's token and the time of the call are arguments.
\<close>

definition PutStart ::
  "object_key \<Rightarrow> nat \<Rightarrow> nat \<Rightarrow> nat \<Rightarrow> nat \<Rightarrow> master_state
     \<Rightarrow> (error + placement list) \<times> master_state"
where
  "PutStart k nbytes targetReplicaCount client now s =
     (if find_txn k s \<noteq> None \<or> is_complete_object k s then (Inl Conflict, s)
      else case AllocateSpace nbytes targetReplicaCount [] (segments s) of
             Inl e \<Rightarrow> (Inl InsufficientCapacity, s)
           | Inr (pls, gs) \<Rightarrow>
               (let reps = map (pending_replica k) pls;
                    ob = \<lparr>obj_key = k, obj_size = nbytes, obj_replicas = reps,
                          obj_state = Putting, obj_target = targetReplicaCount\<rparr>;
                    txn = \<lparr>txn_key = k, txn_replicas = reps, txn_start = now,
                           txn_client = client\<rparr>
                in (Inr pls, \<lparr>segments = gs, objects = objects s @ [ob],
                              transactions = transactions s @ [txn]\<rparr>)))"

text \<open>
  Modelled from the spec: PutEnd. "Fails with NotFound if no matching transaction
  exists. Marks all allocated replicas Complete, deletes the transaction, sets object
  state Complete. Idempotent re-invocation after success is a no-op success."
\<close>

definition complete_object :: "object \<Rightarrow> object" where
  "complete_object ob =
     ob\<lparr>obj_replicas := map (\<lambda>r. r\<lparr>rep_status := Complete\<rparr>) (obj_replicas ob),
        obj_state := ObjComplete\<rparr>"

definition PutEnd :: "object_key \<Rightarrow> master_state \<Rightarrow> (error + unit) \<times> master_state" where
  "PutEnd k s =
     (case find_txn k s of
        None \<Rightarrow> if is_complete_object k s then (Inr (), s) else (Inl NotFound, s)
      | Some t \<Rightarrow>
          (Inr (), s\<lparr>objects := map (\<lambda>ob. if obj_key ob = k then complete_object ob else ob)
                                   (objects s),
                     transactions := filter (\<lambda>t. txn_key t \<noteq> k) (transactions s)\<rparr>))"

text \<open>
  Modelled from the spec: PutRevoke. "Fails with NotFound if no transaction exists.
  Releases allocated capacity back to their segments, deletes the object entirely."
\<close>

definition PutRevoke :: "object_key \<Rightarrow> master_state \<Rightarrow> (error + unit) \<times> master_state" where
  "PutRevoke k s =
     (case find_txn k s of
        None \<Rightarrow> (Inl NotFound, s)
      | Some t \<Rightarrow>
          (Inr (), \<lparr>segments = release (txn_replicas t) (segments s),
                    objects = filter (\<lambda>ob. obj_key ob \<noteq> k) (objects s),
                    transactions = filter (\<lambda>t. txn_key t \<noteq> k) (transactions s)\<rparr>))"

text \<open>
  Modelled from the spec: GetReplicaList. "Fails with NotFound unless the object is
  Complete; otherwise returns the current Complete replica set. Must never return
  replicas belonging to a Draining-then-evicted segment; stale entries are pruned lazily
  on read if detected."
\<close>

definition GetReplicaList ::
  "object_key \<Rightarrow> master_state \<Rightarrow> (error + replica list) \<times> master_state"
where
  "GetReplicaList k s =
     (case find_object k s of
        None \<Rightarrow> (Inl NotFound, s)
      | Some ob \<Rightarrow>
          if obj_state ob \<noteq> ObjComplete then (Inl NotFound, s)
          else (let keep = filter (\<lambda>r. rep_status r = Complete \<and> segment_live (rep_segment r) s)
                             (obj_replicas ob)
                in (Inr keep,
                    s\<lparr>objects := map (\<lambda>ob. if obj_key ob = k then ob\<lparr>obj_replicas := keep\<rparr>
                                           else ob) (objects s)\<rparr>)))"

text \<open>
  Modelled from the spec: Remove. "Fails with NotFound if absent; otherwise releases all
  replicas' capacity and deletes the object, including any in-flight transaction."
\<close>

definition Remove :: "object_key \<Rightarrow> master_state \<Rightarrow> (error + unit) \<times> master_state" where
  "Remove k s =
     (case find_object k s of
        None \<Rightarrow> (Inl NotFound, s)
      | Some ob \<Rightarrow>
          (Inr (), \<lparr>segments = release (obj_replicas ob) (segments s),
                    objects = filter (\<lambda>ob. obj_key ob \<noteq> k) (objects s),
                    transactions = filter (\<lambda>t. txn_key t \<noteq> k) (transactions s)\<rparr>))"

subsection \<open>GarbageCollector (spec, section 4.3)\<close>

text \<open>
  Modelled from the spec: the sweep. "Abort PutTransactions older than a configured
  timeout: equivalent to an automatic PutRevoke. Detect Draining segments with zero
  remaining live replicas and finalize them to Gone, then delete their registry entries.
  Detect replicas whose segment is Gone but which were not pruned eagerly, and remove
  them from their object; if an object's Complete replica set becomes empty, the object
  is deleted." An object with a transaction (state Putting) is never deleted by the
  third step.
\<close>

definition expired :: "nat \<Rightarrow> nat \<Rightarrow> put_txn \<Rightarrow> bool" where
  "expired timeout now t = (txn_start t + timeout < now)"

definition abort_expired :: "nat \<Rightarrow> nat \<Rightarrow> master_state \<Rightarrow> master_state" where
  "abort_expired timeout now s =
     fold (\<lambda>k st. snd (PutRevoke k st))
       (map txn_key (filter (expired timeout now) (transactions s))) s"

definition finalize_drained :: "master_state \<Rightarrow> master_state" where
  "finalize_drained s =
     s\<lparr>segments := filter (\<lambda>g. \<not> (seg_status g = Draining \<and> live_replicas_on (seg_id g) s = []))
                      (segments s)\<rparr>"

definition prune_object :: "master_state \<Rightarrow> object \<Rightarrow> object" where
  "prune_object s ob =
     ob\<lparr>obj_replicas := filter (\<lambda>r. segment_live (rep_segment r) s) (obj_replicas ob)\<rparr>"

definition prune_gone_replicas :: "master_state \<Rightarrow> master_state" where
  "prune_gone_replicas s =
     s\<lparr>objects :=
         filter (\<lambda>ob. \<not> (obj_state ob = ObjComplete
                         \<and> filter (\<lambda>r. rep_status r = Complete) (obj_replicas ob) = []))
           (map (prune_object s) (objects s))\<rparr>"

definition gc_sweep :: "nat \<Rightarrow> nat \<Rightarrow> master_state \<Rightarrow> master_state" where
  "gc_sweep timeout now s = prune_gone_replicas (finalize_drained (abort_expired timeout now s))"

subsection \<open>The service object\<close>

text \<open>
  Modelled from the spec: the constructor \<open>WrappedMasterService(enable_gc)\<close> and the
  periodic sweep, "only active if a configuration flag enables it". The service starts
  with no segments, objects or transactions.
\<close>

record wrapped_master_service =
  enable_gc :: bool
  state :: master_state

definition WrappedMasterService :: "bool \<Rightarrow> wrapped_master_service" where
  "WrappedMasterService flag = \<lparr>enable_gc = flag, state = empty_state\<rparr>"

definition gc_tick :: "nat \<Rightarrow> nat \<Rightarrow> wrapped_master_service \<Rightarrow> wrapped_master_service" where
  "gc_tick timeout now svc =
     (if enable_gc svc then svc\<lparr>state := gc_sweep timeout now (state svc)\<rparr> else svc)"

text \<open>
  Modelled from the spec: the history of a service. Mutation is serialized per key and
  per segment (section 5), so a history is a sequence of events, each with its time: a
  call of one of the seven operations, or a tick of the sweep's timer.
\<close>

datatype request =
    ReqGetReplicaList object_key
  | ReqPutStart object_key nat nat nat
  | ReqPutEnd object_key
  | ReqPutRevoke object_key
  | ReqRemove object_key
  | ReqMountSegment segment_id node_address nat
  | ReqUnmountSegment segment_id

datatype event = Call request | GcTick

fun serve :: "request \<Rightarrow> nat \<Rightarrow> master_state \<Rightarrow> master_state" where
  "serve (ReqGetReplicaList k) now s = snd (GetReplicaList k s)"
| "serve (ReqPutStart k nbytes n client) now s = snd (PutStart k nbytes n client now s)"
| "serve (ReqPutEnd k) now s = snd (PutEnd k s)"
| "serve (ReqPutRevoke k) now s = snd (PutRevoke k s)"
| "serve (ReqRemove k) now s = snd (Remove k s)"
| "serve (ReqMountSegment sid node cap) now s = snd (MountSegment sid node cap now s)"
| "serve (ReqUnmountSegment sid) now s = snd (UnmountSegment sid s)"

fun step :: "nat \<Rightarrow> wrapped_master_service \<Rightarrow> nat \<times> event \<Rightarrow> wrapped_master_service" where
  "step timeout svc (now, Call r) = svc\<lparr>state := serve r now (state svc)\<rparr>"
| "step timeout svc (now, GcTick) = gc_tick timeout now svc"

definition run :: "nat \<Rightarrow> (nat \<times> event) list \<Rightarrow> wrapped_master_service \<Rightarrow> wrapped_master_service" where
  "run timeout evs svc = foldl (step timeout) svc evs"

text \<open>
  Modelled from the spec: PutStart calls racing on one key. They are serialized in some
  order (section 5), which is the order of the list. Each entry is the size, the replica
  count, the caller's token and the time.
\<close>

fun race :: "object_key \<Rightarrow> (nat \<times> nat \<times> nat \<times> nat) list \<Rightarrow> master_state
               \<Rightarrow> (error + placement list) list" where
  "race k [] s = []"
| "race k ((nbytes, n, client, now) # rest) s =
     (case PutStart k nbytes n client now s of (r, s') \<Rightarrow> r # race k rest s')"

subsection \<open>main (master.cpp, lines 16 to 48)\<close>

text \<open>
  The inputs of \<open>main\<close>: the flag settings of the command line, the value of
  \<open>std::thread::hardware_concurrency()\<close>, and the value of \<open>server.start()\<close> as the
  condition that \<open>!\<close> negates. The result is the server as configured, the service
  object, and the value returned (\<open>true\<close> converts to 1). The two logging calls have
  no effect on any of these.
\<close>

record process =
  proc_server :: coro_rpc_server
  proc_service :: wrapped_master_service
  proc_exit :: int

definition main :: "flag_setting list \<Rightarrow> uint32 \<Rightarrow> bool \<Rightarrow> process" where
  "main argv hardware_concurrency start_result =
     (let flags = ParseCommandLineFlags argv;
          server = new_server
                     (std_min (FLAGS_max_threads flags) (static_cast_int hardware_concurrency))
                     (FLAGS_port flags);
          service = WrappedMasterService (FLAGS_enable_gc flags);
          server = register_handler ''GetReplicaList'' server;
          server = register_handler ''PutStart'' server;
          server = register_handler ''PutEnd'' server;
          server = register_handler ''PutRevoke'' server;
          server = register_handler ''Remove'' server;
          server = register_handler ''MountSegment'' server;
          server = register_handler ''UnmountSegment'' server
      in \<lparr>proc_server = server, proc_service = service,
          proc_exit = (if \<not> start_result then 1 else 0)\<rparr>)"




section \<open>Invariant and example state\<close>

text \<open>
  Modelled from the spec: the invariant "at most one active PutTransaction per object key
  at any time".
\<close>

definition txn_unique :: "master_state \<Rightarrow> bool" where
  "txn_unique s = distinct (map txn_key (transactions s))"

text \<open>The registry after \<open>MountSegment(1, nodeA, 100)\<close> on the empty service.\<close>

definition mounted_once :: master_state where
  "mounted_once = snd (MountSegment 1 ''nodeA'' 100 0 empty_state)"

section \<open>Properties of main\<close>

lemma main_handlers:
  "handlers (proc_server (main argv hw st)) =
     [''GetReplicaList'', ''PutStart'', ''PutEnd'', ''PutRevoke'', ''Remove'',
      ''MountSegment'', ''UnmountSegment'']"
  by (simp add: main_def Let_def register_handler_def new_server_def)

lemma main_thread_num:
  "thread_num (proc_server (main argv hw st)) =
     std_min (FLAGS_max_threads (ParseCommandLineFlags argv)) (static_cast_int hw)"
  by (simp add: main_def Let_def register_handler_def new_server_def)

lemma main_port:
  "port (proc_server (main argv hw st)) = FLAGS_port (ParseCommandLineFlags argv)"
  by (simp add: main_def Let_def register_handler_def new_server_def)

lemma main_service:
  "proc_service (main argv hw st) =
     WrappedMasterService (FLAGS_enable_gc (ParseCommandLineFlags argv))"
  by (simp add: main_def Let_def)

lemma sint_std_min: "sint (std_min a b) = min (sint a) (sint b)"
  by (auto simp: std_min_def word_sless_alt min_def)

text \<open>
  The thread count in full: the signed minimum of the flag and of the hardware
  concurrency as \<open>static_cast<int>\<close> reads it.
\<close>

lemma main_thread_num_sint:
  "sint (thread_num (proc_server (main argv hw st))) =
     min (sint (FLAGS_max_threads (ParseCommandLineFlags argv))) (sint hw)"
  by (simp add: main_thread_num sint_std_min static_cast_int_def)

text \<open>
  C1. The handlers registered on the RPC server are exactly the seven operations
  GetReplicaList, PutStart, PutEnd, PutRevoke, Remove, MountSegment and UnmountSegment:
  each is registered (once), and nothing else is.
\<close>

theorem main_registers_seven_handlers:
  "set (handlers (proc_server (main argv hw st))) =
     {''GetReplicaList'', ''PutStart'', ''PutEnd'', ''PutRevoke'', ''Remove'',
      ''MountSegment'', ''UnmountSegment''}
   \<and> distinct (handlers (proc_server (main argv hw st)))
   \<and> length (handlers (proc_server (main argv hw st))) = 7"
  by (simp add: main_handlers)

lemma sint_le_uint_w: "sint (w :: 32 word) \<le> uint w"
proof -
  have "sint w = signed_take_bit 31 (uint w)" by (simp add: sint_uint)
  also have "\<dots> \<le> uint w"
    by (subst signed_take_bit_int_less_eq_self_iff) (rule order_trans [where y = 0], simp_all)
  finally show ?thesis .
qed

lemma sint_eq_uint_small: "uint (w :: 32 word) < 2 ^ 31 \<Longrightarrow> sint w = uint w"
proof -
  assume small: "uint w < 2 ^ 31"
  have "sint w = signed_take_bit 31 (uint w)" by (simp add: sint_uint)
  also have "\<dots> = uint w"
  proof (rule signed_take_bit_int_eq_self)
    show "- (2 ^ 31) \<le> uint w" by (rule order_trans [where y = 0]) simp_all
    show "uint w < 2 ^ 31" by (rule small)
  qed
  finally show ?thesis .
qed

text \<open>
  C2. For every configured maximum \<open>m\<close> and every hardware concurrency \<open>h\<close> that
  fits an \<open>int\<close>, which is every number of hardware threads a machine reports, the
  server is constructed with \<open>min m h\<close> threads. The same holds for a larger \<open>h\<close>
  whenever \<open>m\<close> is at most \<open>h\<close> as \<open>static_cast<int>\<close> reads it.
\<close>

theorem thread_num_is_min:
  "uint hw < 2 ^ 31 \<or> sint (FLAGS_max_threads (ParseCommandLineFlags argv)) \<le> sint hw \<Longrightarrow>
   sint (thread_num (proc_server (main argv hw st))) =
     min (sint (FLAGS_max_threads (ParseCommandLineFlags argv))) (uint hw)"
proof -
  let ?m = "sint (FLAGS_max_threads (ParseCommandLineFlags argv))"
  assume dom: "uint hw < 2 ^ 31 \<or> ?m \<le> sint hw"
  have code: "sint (thread_num (proc_server (main argv hw st))) = min ?m (sint hw)"
    by (rule main_thread_num_sint)
  from dom show ?thesis
  proof
    assume "uint hw < 2 ^ 31"
    then have "sint hw = uint hw" by (rule sint_eq_uint_small)
    with code show ?thesis by simp
  next
    assume le: "?m \<le> sint hw"
    moreover have "sint hw \<le> uint hw" by (rule sint_le_uint_w)
    ultimately have "?m \<le> uint hw" by (rule order_trans)
    with le code show ?thesis by (simp add: min_def)
  qed
qed

theorem thread_num_is_min_witness:
  "uint (8 :: uint32) < 2 ^ 31 \<and> sint (thread_num (proc_server (main [] 8 True))) = 4
   \<and> sint (thread_num (proc_server (main [SetMaxThreads 64] 8 True))) = 8"
  using thread_num_is_min [of 8 "[]" True] thread_num_is_min [of 8 "[SetMaxThreads 64]" True]
  by (simp add: ParseCommandLineFlags_def flag_defaults_def)

text \<open>
  C9. Started without flags, the master listens on port 50051, allows at most 4 worker
  threads and has garbage collection disabled.
\<close>

theorem default_configuration:
  "ParseCommandLineFlags [] =
     \<lparr>FLAGS_port = 50051, FLAGS_max_threads = 4, FLAGS_enable_gc = False\<rparr>
   \<and> sint (port (proc_server (main [] hw st))) = 50051
   \<and> enable_gc (proc_service (main [] hw st)) = False"
  by (simp add: main_port main_service WrappedMasterService_def ParseCommandLineFlags_def
        flag_defaults_def)



section \<open>Properties of the master service\<close>

subsection \<open>At most one transaction per key\<close>

lemma find_txn_None: "(find_txn k s = None) = (k \<notin> txn_key ` set (transactions s))"
  by (auto simp: find_txn_def find_None_iff)

lemma PutStart_busy:
  "find_txn k s \<noteq> None \<or> is_complete_object k s \<Longrightarrow> PutStart k nb n c now s = (Inl Conflict, s)"
  by (simp add: PutStart_def)

lemma PutStart_failed:
  "PutStart k nb n c now s = (Inl e, s') \<Longrightarrow> s' = s \<and> (e = Conflict \<or> e = InsufficientCapacity)"
  by (auto simp: PutStart_def Let_def split: if_splits sum.splits prod.splits)

lemma PutStart_ok_txn:
  "PutStart k nb n c now s = (Inr pls, s') \<Longrightarrow>
     find_txn k s = None \<and> \<not> is_complete_object k s \<and>
     (\<exists>t. txn_key t = k \<and> transactions s' = transactions s @ [t])"
  by (auto simp: PutStart_def Let_def split: if_splits sum.splits prod.splits)

lemma PutStart_ok_busy:
  "PutStart k nb n c now s = (Inr pls, s') \<Longrightarrow> find_txn k s' \<noteq> None"
  by (auto dest!: PutStart_ok_txn simp: find_txn_None)

lemma PutStart_unique: "txn_unique s \<Longrightarrow> txn_unique (snd (PutStart k nb n c now s))"
proof (cases "PutStart k nb n c now s")
  case (Pair r s')
  assume u: "txn_unique s"
  show ?thesis
  proof (cases r)
    case (Inl e)
    with Pair PutStart_failed have "s' = s" by blast
    with u Pair show ?thesis by simp
  next
    case (Inr pls)
    with Pair PutStart_ok_txn [of k nb n c now s pls s']
    obtain t where "find_txn k s = None" "txn_key t = k" "transactions s' = transactions s @ [t]"
      by blast
    with u Pair show ?thesis by (auto simp: txn_unique_def find_txn_None)
  qed
qed

lemma PutEnd_unique: "txn_unique s \<Longrightarrow> txn_unique (snd (PutEnd k s))"
  by (auto simp: txn_unique_def PutEnd_def distinct_map_filter split: option.splits)

lemma PutRevoke_unique: "txn_unique s \<Longrightarrow> txn_unique (snd (PutRevoke k s))"
  by (auto simp: txn_unique_def PutRevoke_def distinct_map_filter split: option.splits)

lemma Remove_unique: "txn_unique s \<Longrightarrow> txn_unique (snd (Remove k s))"
  by (auto simp: txn_unique_def Remove_def distinct_map_filter split: option.splits)

lemma GetReplicaList_txns: "transactions (snd (GetReplicaList k s)) = transactions s"
  by (auto simp: GetReplicaList_def Let_def split: option.splits)

lemma MountSegment_txns: "transactions (snd (MountSegment sid node cap now s)) = transactions s"
  by (auto simp: MountSegment_def Let_def split: option.splits)

lemma UnmountSegment_txns: "transactions (snd (UnmountSegment sid s)) = transactions s"
  by (auto simp: UnmountSegment_def Let_def split: option.splits)

lemma serve_unique: "txn_unique s \<Longrightarrow> txn_unique (serve r now s)"
  by (cases r)
     (simp_all add: PutStart_unique PutEnd_unique PutRevoke_unique Remove_unique,
      simp_all add: txn_unique_def GetReplicaList_txns MountSegment_txns UnmountSegment_txns)

lemma fold_revoke_unique:
  "txn_unique s \<Longrightarrow> txn_unique (fold (\<lambda>k st. snd (PutRevoke k st)) ks s)"
  by (induction ks arbitrary: s) (simp_all add: PutRevoke_unique)

lemma gc_sweep_unique: "txn_unique s \<Longrightarrow> txn_unique (gc_sweep timeout now s)"
proof -
  assume "txn_unique s"
  then have "txn_unique (abort_expired timeout now s)"
    by (simp add: abort_expired_def fold_revoke_unique)
  then show ?thesis
    by (simp add: gc_sweep_def txn_unique_def prune_gone_replicas_def finalize_drained_def)
qed

lemma step_unique: "txn_unique (state svc) \<Longrightarrow> txn_unique (state (step timeout svc ev))"
  by (cases ev; cases "snd ev") (auto simp: serve_unique gc_tick_def gc_sweep_unique)

lemma foldl_step_unique:
  "txn_unique (state svc) \<Longrightarrow> txn_unique (state (foldl (step timeout) svc evs))"
  by (induction evs arbitrary: svc) (simp_all add: step_unique)

lemma run_unique: "txn_unique (state (run timeout evs (WrappedMasterService flag)))"
  unfolding run_def
  by (rule foldl_step_unique) (simp add: WrappedMasterService_def empty_state_def txn_unique_def)

subsection \<open>PutStart calls racing on one key\<close>

lemma race_busy:
  "find_txn k s \<noteq> None \<or> is_complete_object k s \<Longrightarrow>
     race k reqs s = replicate (length reqs) (Inl Conflict)"
  by (induction reqs) (auto simp: PutStart_busy)

lemma race_length: "length (race k reqs s) = length reqs"
  by (induction reqs arbitrary: s) (auto split: prod.splits)

lemma race_shape:
  "(\<exists>m. race k reqs s = replicate m (Inl InsufficientCapacity))
   \<or> (\<exists>m pls n. race k reqs s =
         replicate m (Inl InsufficientCapacity) @ Inr pls # replicate n (Inl Conflict))
   \<or> (\<exists>n. race k reqs s = replicate n (Inl Conflict))"
proof (induction reqs)
  case Nil
  show ?case by simp
next
  case (Cons q reqs)
  obtain nb n c now where q: "q = (nb, n, c, now)" by (cases q) auto
  obtain r s' where ps: "PutStart k nb n c now s = (r, s')" by (cases "PutStart k nb n c now s") auto
  show ?case
  proof (cases r)
    case (Inr pls)
    with ps have "find_txn k s' \<noteq> None" by (auto dest: PutStart_ok_busy)
    then have "race k reqs s' = replicate (length reqs) (Inl Conflict)"
      by (simp add: race_busy)
    with q ps Inr have "race k (q # reqs) s =
        replicate 0 (Inl InsufficientCapacity) @ Inr pls # replicate (length reqs) (Inl Conflict)"
      by simp
    then show ?thesis by blast
  next
    case (Inl e)
    with ps PutStart_failed have same: "s' = s" and e: "e = Conflict \<or> e = InsufficientCapacity"
      by blast+
    show ?thesis
    proof (cases "find_txn k s \<noteq> None \<or> is_complete_object k s")
      case True
      then have "race k (q # reqs) s = replicate (length (q # reqs)) (Inl Conflict)"
        by (rule race_busy)
      then show ?thesis by blast
    next
      case False
      with ps Inl have ic: "e = InsufficientCapacity"
        by (auto simp: PutStart_def Let_def split: sum.splits prod.splits)
      have hd: "race k (q # reqs) s = Inl InsufficientCapacity # race k reqs s"
        using q ps Inl same ic by simp
      from Cons.IH show ?thesis
      proof (elim disjE exE)
        fix m assume "race k reqs s = replicate m (Inl InsufficientCapacity)"
        with hd have "race k (q # reqs) s = replicate (Suc m) (Inl InsufficientCapacity)" by simp
        then show ?thesis by blast
      next
        fix m pls n
        assume "race k reqs s = replicate m (Inl InsufficientCapacity) @ Inr pls # replicate n (Inl Conflict)"
        with hd have "race k (q # reqs) s =
           replicate (Suc m) (Inl InsufficientCapacity) @ Inr pls # replicate n (Inl Conflict)" by simp
        then show ?thesis by blast
      next
        fix n assume a: "race k reqs s = replicate n (Inl Conflict)"
        from False have "PutStart k nb n' c' now' s \<noteq> (Inl Conflict, s)" for nb n' c' now'
          by (auto simp: PutStart_def Let_def split: sum.splits prod.splits)
        show ?thesis
        proof (cases reqs)
          case Nil
          with hd have "race k (q # reqs) s = replicate (Suc 0) (Inl InsufficientCapacity)" by simp
          then show ?thesis by blast
        next
          case (Cons q' reqs')
          obtain nb' n' c' now' where q': "q' = (nb', n', c', now')" by (cases q') auto
          from False have "fst (PutStart k nb' n' c' now' s) \<noteq> Inl Conflict"
            by (auto simp: PutStart_def Let_def split: sum.splits prod.splits)
          with a Cons q' have False
            by (cases n) (auto split: prod.splits)
          then show ?thesis ..
        qed
      qed
    qed
  qed
qed

lemma shape_at_most_one:
  assumes "rs = replicate m (Inl a) @ Inr x # replicate n (Inl b)"
  shows "length (filter (\<lambda>r. \<not> isl r) rs) = 1"
    and "i < j \<Longrightarrow> j < length rs \<Longrightarrow> \<not> isl (rs ! i) \<Longrightarrow> rs ! j = Inl b"
    and "r \<in> set rs \<Longrightarrow> isl r \<Longrightarrow> r = Inl a \<or> r = Inl b"
proof -
  show "length (filter (\<lambda>r. \<not> isl r) rs) = 1"
    using assms by simp
  show "r \<in> set rs \<Longrightarrow> isl r \<Longrightarrow> r = Inl a \<or> r = Inl b"
    using assms by auto
  show "rs ! j = Inl b" if "i < j" "j < length rs" "\<not> isl (rs ! i)"
  proof -
    have "\<not> i < m" using that assms by (auto simp: nth_append)
    then have "m < j" using that by simp
    then show ?thesis using that assms
      by (auto simp: nth_append nth_Cons split: nat.splits)
  qed
qed

lemma race_at_most_one: "length (filter (\<lambda>r. \<not> isl r) (race k reqs s)) \<le> 1"
  using race_shape [of k reqs s] by (auto simp: shape_at_most_one(1))

lemma race_after_success:
  "i < j \<Longrightarrow> j < length reqs \<Longrightarrow> \<not> isl (race k reqs s ! i) \<Longrightarrow> race k reqs s ! j = Inl Conflict"
proof -
  assume ij: "i < j" and j: "j < length reqs" and ok: "\<not> isl (race k reqs s ! i)"
  have len: "length (race k reqs s) = length reqs" by (rule race_length)
  from race_shape [of k reqs s] show ?thesis
  proof (elim disjE exE)
    fix m assume "race k reqs s = replicate m (Inl InsufficientCapacity)"
    with ok ij j len show ?thesis by (metis isl_def length_replicate nth_replicate order_less_trans)
  next
    fix m pls n
    assume sh: "race k reqs s = replicate m (Inl InsufficientCapacity) @ Inr pls # replicate n (Inl Conflict)"
    from j len have "j < length (race k reqs s)" by simp
    with shape_at_most_one(2) [OF sh ij] ok show ?thesis by blast
  next
    fix n assume "race k reqs s = replicate n (Inl Conflict)"
    with j len show ?thesis by (metis length_replicate nth_replicate)
  qed
qed

lemma race_failures:
  "r \<in> set (race k reqs s) \<Longrightarrow> isl r \<Longrightarrow> r = Inl Conflict \<or> r = Inl InsufficientCapacity"
  using race_shape [of k reqs s]
  by (elim disjE exE) (auto dest: shape_at_most_one(3))

lemma PutStart_free:
  "find_txn k s = None \<Longrightarrow> \<not> is_complete_object k s \<Longrightarrow>
   isl (fst (PutStart k nb n c now s)) = isl (AllocateSpace nb n [] (segments s))"
  by (auto simp: PutStart_def Let_def split: sum.splits prod.splits)

lemma race_exactly_one:
  "find_txn k s = None \<Longrightarrow> \<not> is_complete_object k s \<Longrightarrow>
   \<exists>q \<in> set reqs. \<not> isl (AllocateSpace (fst q) (fst (snd q)) [] (segments s)) \<Longrightarrow>
   length (filter (\<lambda>r. \<not> isl r) (race k reqs s)) = 1"
proof (induction reqs)
  case Nil
  then show ?case by simp
next
  case (Cons q reqs)
  obtain nb n c now where q: "q = (nb, n, c, now)" by (cases q) auto
  obtain r s' where ps: "PutStart k nb n c now s = (r, s')" by (cases "PutStart k nb n c now s") auto
  show ?case
  proof (cases r)
    case (Inr pls)
    with ps have "find_txn k s' \<noteq> None" by (auto dest: PutStart_ok_busy)
    then have "race k reqs s' = replicate (length reqs) (Inl Conflict)"
      by (simp add: race_busy)
    with q ps Inr show ?thesis by simp
  next
    case (Inl e)
    with ps PutStart_failed have same: "s' = s" by blast
    from Inl ps Cons.prems(1,2) have "isl (AllocateSpace nb n [] (segments s))"
      using PutStart_free [of k s nb n c now] by simp
    with Cons.prems(3) q
    have "\<exists>q \<in> set reqs. \<not> isl (AllocateSpace (fst q) (fst (snd q)) [] (segments s))"
      by auto
    with Cons.IH Cons.prems(1,2)
    have "length (filter (\<lambda>r. \<not> isl r) (race k reqs s)) = 1" by blast
    with q ps Inl same show ?thesis by simp
  qed
qed

lemma mounted_once_eq:
  "mounted_once = \<lparr>segments = [\<lparr>seg_id = 1, seg_node = ''nodeA'', seg_capacity = 100,
      seg_allocated = 0, seg_status = Active, seg_mounted = 0\<rparr>], objects = [], transactions = []\<rparr>"
  by (simp add: mounted_once_def MountSegment_def empty_state_def find_segment_def)

lemma race_mounted_once: "race ''k2'' [(10, 1, 7, 1), (10, 1, 8, 2)] mounted_once
  = [Inr [\<lparr>pl_segment = 1, pl_offset = 0, pl_length = 10\<rparr>], Inl Conflict]"
  by (simp add: mounted_once_eq PutStart_def find_txn_def is_complete_object_def find_object_def
       AllocateSpace_def suitable_def preference_order_def place_def reserve_def Let_def
       pending_replica_def)

text \<open>
  C8, as amended. In every state the service can reach, no two transactions carry the
  same key. When PutStart calls race on one key (serialized in any order, from any
  state), at most one succeeds; every call after the successful one fails with Conflict;
  a call fails only with Conflict or InsufficientCapacity; and if the key has neither a
  transaction nor a Complete object and the allocation of at least one of the calls can
  be satisfied, exactly one call succeeds.
\<close>

theorem put_transaction_exclusion:
  "distinct (map txn_key (transactions (state (run timeout evs (WrappedMasterService flag)))))
   \<and> length (filter (\<lambda>r. \<not> isl r) (race k reqs s)) \<le> 1
   \<and> (\<forall>i j. i < j \<and> j < length reqs \<and> \<not> isl (race k reqs s ! i)
         \<longrightarrow> race k reqs s ! j = Inl Conflict)
   \<and> (\<forall>r \<in> set (race k reqs s). isl r \<longrightarrow> r = Inl Conflict \<or> r = Inl InsufficientCapacity)
   \<and> (find_txn k s = None \<and> \<not> is_complete_object k s
        \<and> (\<exists>q \<in> set reqs. \<not> isl (AllocateSpace (fst q) (fst (snd q)) [] (segments s)))
      \<longrightarrow> length (filter (\<lambda>r. \<not> isl r) (race k reqs s)) = 1)"
  using run_unique [of timeout evs flag] race_at_most_one [of k reqs s]
        race_after_success [of _ _ reqs k s] race_failures [of _ k reqs s]
        race_exactly_one [of k s reqs]
  by (simp add: txn_unique_def) blast

theorem put_transaction_exclusion_witness:
  "find_txn ''k2'' mounted_once = None \<and> \<not> is_complete_object ''k2'' mounted_once
   \<and> length (filter (\<lambda>r. \<not> isl r) (race ''k2'' [(10, 1, 7, 1), (10, 1, 8, 2)] mounted_once)) = 1
   \<and> race ''k2'' [(10, 1, 7, 1), (10, 1, 8, 2)] mounted_once ! 1 = Inl Conflict"
proof -
  let ?reqs = "[(10, 1, 7, 1), (10, 1, 8, 2)] :: (nat \<times> nat \<times> nat \<times> nat) list"
  have free: "find_txn ''k2'' mounted_once = None" "\<not> is_complete_object ''k2'' mounted_once"
    by (simp_all add: mounted_once_eq find_txn_def is_complete_object_def find_object_def)
  have room: "\<exists>q \<in> set ?reqs. \<not> isl (AllocateSpace (fst q) (fst (snd q)) [] (segments mounted_once))"
    by (simp add: mounted_once_eq AllocateSpace_def suitable_def Let_def)
  have first: "\<not> isl (race ''k2'' ?reqs mounted_once ! 0)"
    by (simp only: race_mounted_once) simp
  note all = put_transaction_exclusion [of 5 "[]" False "''k2''" ?reqs mounted_once]
  from all free room
  have one: "length (filter (\<lambda>r. \<not> isl r) (race ''k2'' ?reqs mounted_once)) = 1"
    by blast
  from all have "\<forall>i j. i < j \<and> j < length ?reqs \<and> \<not> isl (race ''k2'' ?reqs mounted_once ! i)
      \<longrightarrow> race ''k2'' ?reqs mounted_once ! j = Inl Conflict"
    by blast
  then have "(0::nat) < 1 \<and> 1 < length ?reqs \<and> \<not> isl (race ''k2'' ?reqs mounted_once ! 0)
      \<longrightarrow> race ''k2'' ?reqs mounted_once ! 1 = Inl Conflict"
    by blast
  with first have "race ''k2'' ?reqs mounted_once ! 1 = Inl Conflict"
    by simp
  with free one show ?thesis by blast
qed

text \<open>
  The claim as stated fails when no segment can hold the object: on a service without
  segments two racing PutStart calls both fail with InsufficientCapacity, so none
  succeeds and none fails with Conflict.
\<close>

theorem put_start_race_counterexample:
  "race ''k'' [(1, 1, 0, 0), (1, 1, 1, 0)] (state (WrappedMasterService False))
     = [Inl InsufficientCapacity, Inl InsufficientCapacity]"
  by (simp add: WrappedMasterService_def empty_state_def PutStart_def find_txn_def
        is_complete_object_def find_object_def AllocateSpace_def)

subsection \<open>The sweep runs only when enabled\<close>

lemma step_enable_gc: "enable_gc (step timeout svc ev) = enable_gc svc"
  by (cases ev; cases "snd ev") (auto simp: gc_tick_def)

lemma run_enable_gc: "enable_gc (run timeout evs svc) = enable_gc svc"
  unfolding run_def by (induction evs arbitrary: svc) (simp_all add: step_enable_gc)

lemma gc_tick_disabled: "\<not> enable_gc svc \<Longrightarrow> gc_tick timeout now svc = svc"
  by (simp add: gc_tick_def)

lemma run_without_gc:
  "\<not> enable_gc svc \<Longrightarrow>
   run timeout evs svc = run timeout (filter (\<lambda>ev. snd ev \<noteq> GcTick) evs) svc"
  unfolding run_def
proof (induction evs arbitrary: svc)
  case Nil
  show ?case by simp
next
  case (Cons ev evs)
  obtain now e where ev: "ev = (now, e)" by (cases ev) auto
  show ?case
  proof (cases e)
    case (Call r)
    have "\<not> enable_gc (step timeout svc ev)" using Cons.prems by (simp add: step_enable_gc)
    then show ?thesis using Cons.IH ev Call by simp
  next
    case GcTick
    then show ?thesis using Cons ev by (simp add: gc_tick_disabled)
  qed
qed

text \<open>
  With the flag set a tick does sweep: a transaction started at time 1 is aborted by the
  tick at time 50 under a timeout of 10, and its bytes go back to the segment.
\<close>

lemma started_put:
  "snd (PutStart ''k1'' 10 1 7 1 mounted_once) =
     \<lparr>segments = [\<lparr>seg_id = 1, seg_node = ''nodeA'', seg_capacity = 100, seg_allocated = 10,
                    seg_status = Active, seg_mounted = 0\<rparr>],
      objects = [\<lparr>obj_key = ''k1'', obj_size = 10,
                   obj_replicas = [\<lparr>rep_key = ''k1'', rep_segment = 1, rep_offset = 0,
                                    rep_length = 10, rep_status = Pending\<rparr>],
                   obj_state = Putting, obj_target = 1\<rparr>],
      transactions = [\<lparr>txn_key = ''k1'',
                        txn_replicas = [\<lparr>rep_key = ''k1'', rep_segment = 1, rep_offset = 0,
                                         rep_length = 10, rep_status = Pending\<rparr>],
                        txn_start = 1, txn_client = 7\<rparr>]\<rparr>"
  by (simp add: mounted_once_eq PutStart_def find_txn_def is_complete_object_def find_object_def
       AllocateSpace_def suitable_def preference_order_def place_def reserve_def Let_def
       pending_replica_def)

lemma sweep_aborts_expired:
  "gc_sweep 10 50 (snd (PutStart ''k1'' 10 1 7 1 mounted_once)) = mounted_once"
  unfolding started_put
  by (simp add: mounted_once_eq gc_sweep_def abort_expired_def expired_def
        PutRevoke_def find_txn_def release_def release_one_def finalize_drained_def
        prune_gone_replicas_def)

lemma enabled_tick_sweeps:
  "state (gc_tick 10 50 \<lparr>enable_gc = True, state = snd (PutStart ''k1'' 10 1 7 1 mounted_once)\<rparr>)
     = mounted_once
   \<and> state (gc_tick 10 50 \<lparr>enable_gc = False, state = snd (PutStart ''k1'' 10 1 7 1 mounted_once)\<rparr>)
     = snd (PutStart ''k1'' 10 1 7 1 mounted_once)"
  using sweep_aborts_expired by (simp add: gc_tick_def del: One_nat_def)

text \<open>
  C3. The value of the flag reaches the service unchanged, and with the flag false the
  sweep does nothing: whatever the history, the service is in the state it would be in
  had the sweep's timer never fired.
\<close>

theorem gc_only_when_enabled:
  "enable_gc (proc_service (main argv hw st)) = FLAGS_enable_gc (ParseCommandLineFlags argv)
   \<and> (\<not> FLAGS_enable_gc (ParseCommandLineFlags argv) \<longrightarrow>
        run timeout evs (proc_service (main argv hw st)) =
        run timeout (filter (\<lambda>ev. snd ev \<noteq> GcTick) evs) (proc_service (main argv hw st)))"
  by (auto simp: main_service WrappedMasterService_def intro!: run_without_gc)

theorem gc_only_when_enabled_witness:
  "\<not> FLAGS_enable_gc (ParseCommandLineFlags [])
   \<and> run 10 [(1, Call (ReqMountSegment 1 ''nodeA'' 100)), (50, GcTick)]
         (proc_service (main [] 8 True))
     = run 10 [(1, Call (ReqMountSegment 1 ''nodeA'' 100))] (proc_service (main [] 8 True))"
  using gc_only_when_enabled
          [of "[]" 8 True 10 "[(1, Call (ReqMountSegment 1 ''nodeA'' 100)), (50, GcTick)]"]
  by (simp add: ParseCommandLineFlags_def flag_defaults_def)

end
